theory Spec2Isabelle
  imports Main "HOL-Library.Word"
begin

unbundle bit_operations_syntax

section \<open>cTCP (src/ctcp.c): data model\<close>

text \<open>
  The protocol logic of \<^verbatim>\<open>ctcp.c\<close> is embedded as functions on explicit state. The
  32-bit counters of \<^verbatim>\<open>struct ctcp_state\<close> are \<open>32 word\<close>, so that \<open>+\<close> wraps and
  \<open><\<close> is the unsigned comparison of C; \<^verbatim>\<open>int\<close> and \<^verbatim>\<open>long\<close> fields (timeout,
  retransmission count, time stamps) are \<open>int\<close>. The 32-bit fields of a segment are
  written with \<^verbatim>\<open>htonl\<close> and read with \<^verbatim>\<open>ntohl\<close>, which are inverse to each other, so
  the segment record holds their host values. The 16-bit length field is different: the
  code writes \<^verbatim>\<open>htonl(...)\<close> into it and reads it with \<^verbatim>\<open>ntohs\<close>. The record holds
  that field as stored, and both conversions, which depend on the host, are written out.
\<close>

type_synonym byte = "8 word"
type_synonym u16 = "16 word"
type_synonym u32 = "32 word"

text \<open>
  Modelled from the spec: \<^verbatim>\<open>ctcp_segment_t\<close> is declared in \<^verbatim>\<open>ctcp_sys.h\<close>, which is not
  among the sources. The fields are those the spec lists (section 3 and the wire layout of
  section 6) and \<^verbatim>\<open>ctcp.c\<close> accesses: \<^verbatim>\<open>seqno\<close>, \<^verbatim>\<open>ackno\<close>, \<^verbatim>\<open>len\<close>, \<^verbatim>\<open>flags\<close>, the
  advertised window, the checksum and the payload \<^verbatim>\<open>data\<close>.
\<close>

record ctcp_segment =
  seg_seqno :: u32
  seg_ackno :: u32
  seg_len :: u16
  seg_flags :: u32
  seg_window :: u16
  seg_cksum :: u16
  seg_data :: "byte list"

text \<open>
  The constants \<^verbatim>\<open>ctcp.c\<close> takes from headers that are not among the sources:
  \<^verbatim>\<open>MAX_SEG_DATA_SIZE\<close>, \<^verbatim>\<open>MAX_NUM_XMITS\<close>, \<^verbatim>\<open>sizeof(ctcp_segment_t)\<close> and the flag bits
  \<^verbatim>\<open>TH_FIN\<close>, \<^verbatim>\<open>TH_ACK\<close>; and the host's \<^verbatim>\<open>htonl\<close> and \<^verbatim>\<open>ntohs\<close>, as far as the
  length field needs them. Every function takes them as the parameter \<open>K\<close>.
\<close>

record ctcp_consts =
  MAX_SEG_DATA_SIZE :: nat
  MAX_NUM_XMITS :: int
  SEGMENT_HDR :: nat
  TH_FIN :: u32
  TH_ACK :: u32
  htonl :: "u32 \<Rightarrow> u32"
  ntohs :: "u16 \<Rightarrow> u16"

text \<open>
  \<^verbatim>\<open>segment->len = htonl(x)\<close>: the 32-bit result is cut to the 16 bits of the field.
\<close>

definition len_field :: "ctcp_consts \<Rightarrow> nat \<Rightarrow> u16" where
  "len_field K x = ucast (htonl K (of_nat x))"

text \<open>
  The connection object \<^verbatim>\<open>conn_t\<close> is the boundary to the collaborators. What the code
  does to it is recorded: every \<^verbatim>\<open>conn_send\<close> (segment and byte count) in \<open>sent\<close>, every
  \<^verbatim>\<open>conn_output\<close> in \<open>sink\<close> (a call with length 0 is the end-of-input signal), and
  \<^verbatim>\<open>conn_remove\<close> in \<open>removed\<close>.
\<close>

datatype sink_event = Output "byte list" | End_Of_Input

record conn_t =
  sent :: "(ctcp_segment \<times> nat) list"
  sink :: "sink_event list"
  removed :: bool

text \<open>\<^verbatim>\<open>struct ctcp_state\<close>; the links \<^verbatim>\<open>next\<close> and \<^verbatim>\<open>prev\<close> are the registry list.\<close>

record ctcp_state =
  conn :: conn_t
  segments :: "ctcp_segment list"
  seqno :: u32
  ackno :: u32
  send_base :: u32
  recv_base :: u32
  send_window :: u32
  recv_window :: u32
  rt_timeout :: int
  retransmit_count :: int
  last_sent_time :: int

text \<open>
  Modelled from the spec: \<^verbatim>\<open>ctcp_config_t\<close> (declared in \<^verbatim>\<open>ctcp.h\<close>, not among the
  sources) is the configuration surface of section 6: the two windows in segments and the
  retransmission timeout.
\<close>

record ctcp_config =
  cfg_send_window :: nat
  cfg_recv_window :: nat
  cfg_rt_timeout :: int

text \<open>
  What is left of a connection after an entry point returns: the live state, or, after
  \<^verbatim>\<open>ctcp_destroy\<close>, only the connection object. \<open>Destroyed_In_Walk\<close> is the case of
  \<^verbatim>\<open>ctcp_timer\<close> calling \<^verbatim>\<open>ctcp_destroy\<close> inside its loop over the segment list: the
  list holds the nodes not yet visited at that moment. The C code goes on to read
  \<^verbatim>\<open>node->next\<close> and \<^verbatim>\<open>state->next\<close> from the freed memory, which has no defined
  behaviour; the model stops there.
\<close>

datatype ctcp_result =
  Live ctcp_state
| Destroyed conn_t
| Destroyed_In_Walk conn_t "ctcp_segment list"

fun result_conn :: "ctcp_result \<Rightarrow> conn_t" where
  "result_conn (Live state) = conn state"
| "result_conn (Destroyed c) = c"
| "result_conn (Destroyed_In_Walk c nodes) = c"

section \<open>Collaborators\<close>

definition conn_send :: "conn_t \<Rightarrow> ctcp_segment \<Rightarrow> nat \<Rightarrow> conn_t" where
  "conn_send c segment n = c\<lparr>sent := sent c @ [(segment, n)]\<rparr>"

definition conn_output :: "conn_t \<Rightarrow> byte list \<Rightarrow> nat \<Rightarrow> conn_t" where
  "conn_output c buf n =
     c\<lparr>sink := sink c @ [if n = 0 then End_Of_Input else Output (take n buf)]\<rparr>"

definition conn_remove :: "conn_t \<Rightarrow> conn_t" where
  "conn_remove c = c\<lparr>removed := True\<rparr>"

text \<open>The bytes the application sink has been given, and how often it was told the end.\<close>

fun sink_bytes :: "sink_event list \<Rightarrow> byte list" where
  "sink_bytes [] = []"
| "sink_bytes (Output bs # es) = bs @ sink_bytes es"
| "sink_bytes (End_Of_Input # es) = sink_bytes es"

fun end_signals :: "sink_event list \<Rightarrow> nat" where
  "end_signals [] = 0"
| "end_signals (Output bs # es) = end_signals es"
| "end_signals (End_Of_Input # es) = Suc (end_signals es)"

text \<open>A zero-initialised segment (\<^verbatim>\<open>calloc\<close>, \<^verbatim>\<open>= {0}\<close>).\<close>

definition zero_segment :: ctcp_segment where
  "zero_segment =
     \<lparr>seg_seqno = 0, seg_ackno = 0, seg_len = 0, seg_flags = 0, seg_window = 0,
      seg_cksum = 0, seg_data = []\<rparr>"

section \<open>\<^verbatim>\<open>ctcp_init\<close> and \<^verbatim>\<open>ctcp_destroy\<close>\<close>

text \<open>
  \<^verbatim>\<open>ctcp_init\<close> returns \<^verbatim>\<open>NULL\<close> for a null connection and otherwise the new state,
  pushed on the front of \<^verbatim>\<open>state_list\<close>. The configuration is read, never checked.
\<close>

definition ctcp_init ::
  "ctcp_consts \<Rightarrow> conn_t option \<Rightarrow> ctcp_config \<Rightarrow> ctcp_state list
     \<Rightarrow> ctcp_state option \<times> ctcp_state list" where
  "ctcp_init K c cfg state_list =
     (case c of
        None \<Rightarrow> (None, state_list)
      | Some cn \<Rightarrow>
          (let state =
             \<lparr>conn = cn, segments = [],
              seqno = 1, ackno = 0, send_base = 1, recv_base = 1,
              send_window = of_nat (cfg_send_window cfg * MAX_SEG_DATA_SIZE K),
              recv_window = of_nat (cfg_recv_window cfg * MAX_SEG_DATA_SIZE K),
              rt_timeout = cfg_rt_timeout cfg, retransmit_count = 0,
              last_sent_time = 0\<rparr>
           in (Some state, state # state_list)))"

text \<open>
  \<^verbatim>\<open>ctcp_destroy\<close> unlinks the state, calls \<^verbatim>\<open>conn_remove\<close> and frees the list and the
  state: the connection object is what remains. It makes no call of \<^verbatim>\<open>conn_output\<close>.
\<close>

definition ctcp_destroy :: "ctcp_state \<Rightarrow> conn_t" where
  "ctcp_destroy state = conn_remove (conn state)"

section \<open>\<^verbatim>\<open>ctcp_read\<close>: the sender path\<close>

text \<open>
  One result of \<^verbatim>\<open>conn_input\<close>: \<open>Eof\<close> is the return value -1, \<open>Bytes bs\<close> the bytes
  the source has ready, of which the call copies at most \<^verbatim>\<open>sizeof(buffer)\<close> =
  \<^verbatim>\<open>MAX_SEG_DATA_SIZE\<close> (none ready: return value 0). \<^verbatim>\<open>ctcp_read\<close> takes the results of
  its successive calls as a list; when the list is used up the source has nothing ready.
  \<open>now\<close> is the reading of \<^verbatim>\<open>current_time_ms()\<close> in the last iteration that sends
  data: each iteration overwrites \<^verbatim>\<open>last_sent_time\<close>, and nothing reads it in between.
\<close>

datatype input = Eof | Bytes "byte list"

definition fin_segment :: "ctcp_consts \<Rightarrow> ctcp_state \<Rightarrow> ctcp_segment" where
  "fin_segment K state =
     zero_segment\<lparr>seg_flags := TH_FIN K, seg_seqno := seqno state,
                  seg_len := len_field K (SEGMENT_HDR K)\<rparr>"

definition data_segment :: "ctcp_consts \<Rightarrow> ctcp_state \<Rightarrow> byte list \<Rightarrow> ctcp_segment" where
  "data_segment K state buffer =
     zero_segment\<lparr>seg_seqno := seqno state,
                  seg_len := len_field K (SEGMENT_HDR K + length buffer),
                  seg_data := buffer\<rparr>"

definition send_fin :: "ctcp_consts \<Rightarrow> ctcp_state \<Rightarrow> ctcp_state" where
  "send_fin K state =
     state\<lparr>conn := conn_send (conn state) (fin_segment K state) (SEGMENT_HDR K),
           seqno := seqno state + 1\<rparr>"

definition send_data :: "ctcp_consts \<Rightarrow> int \<Rightarrow> ctcp_state \<Rightarrow> byte list \<Rightarrow> ctcp_state" where
  "send_data K now state buffer =
     state\<lparr>conn := conn_send (conn state) (data_segment K state buffer)
                      (SEGMENT_HDR K + length buffer),
           segments := segments state @ [data_segment K state buffer],
           seqno := seqno state + of_nat (length buffer),
           last_sent_time := now\<rparr>"

fun ctcp_read :: "ctcp_consts \<Rightarrow> int \<Rightarrow> ctcp_state \<Rightarrow> input list \<Rightarrow> ctcp_state" where
  "ctcp_read K now state [] = state"
| "ctcp_read K now state (Eof # rest) =
     (if seqno state < send_base state + send_window state then send_fin K state
      else state)"
| "ctcp_read K now state (Bytes bs # rest) =
     (if seqno state < send_base state + send_window state then
        (if take (MAX_SEG_DATA_SIZE K) bs = [] then state
         else ctcp_read K now (send_data K now state (take (MAX_SEG_DATA_SIZE K) bs)) rest)
      else state)"

section \<open>\<^verbatim>\<open>ctcp_receive\<close>: the receiver path\<close>

text \<open>The loop "Remove ACKed segments": it pops the front while its seqno is below the ackno.\<close>

fun remove_acked :: "u32 \<Rightarrow> ctcp_segment list \<Rightarrow> ctcp_segment list" where
  "remove_acked a [] = []"
| "remove_acked a (first # rest) =
     (if seg_seqno first < a then remove_acked a rest else first # rest)"

definition receive_ack :: "ctcp_consts \<Rightarrow> ctcp_state \<Rightarrow> ctcp_segment \<Rightarrow> ctcp_state" where
  "receive_ack K state segment =
     (if seg_flags segment AND TH_ACK K \<noteq> 0 \<and> send_base state < seg_ackno segment
      then state\<lparr>send_base := seg_ackno segment,
                 segments := remove_acked (seg_ackno segment) (segments state)\<rparr>
      else state)"

definition ack_segment :: "ctcp_consts \<Rightarrow> ctcp_segment \<Rightarrow> nat \<Rightarrow> ctcp_segment" where
  "ack_segment K segment data_len =
     zero_segment\<lparr>seg_flags := TH_ACK K,
                  seg_ackno := seg_seqno segment + of_nat data_len,
                  seg_len := len_field K (SEGMENT_HDR K)\<rparr>"

definition receive_data :: "ctcp_consts \<Rightarrow> ctcp_state \<Rightarrow> ctcp_segment \<Rightarrow> nat \<Rightarrow> ctcp_state" where
  "receive_data K state segment n =
     (if SEGMENT_HDR K < n
      then state\<lparr>conn :=
             conn_send (conn_output (conn state) (seg_data segment) (n - SEGMENT_HDR K))
               (ack_segment K segment (n - SEGMENT_HDR K)) (SEGMENT_HDR K)\<rparr>
      else state)"

definition receive_fin :: "ctcp_consts \<Rightarrow> ctcp_state \<Rightarrow> ctcp_segment \<Rightarrow> ctcp_result" where
  "receive_fin K state segment =
     (if seg_flags segment AND TH_FIN K \<noteq> 0
      then Destroyed (ctcp_destroy (state\<lparr>conn := conn_output (conn state) [] 0\<rparr>))
      else Live state)"

text \<open>
  \<^verbatim>\<open>ctcp_receive(state, segment, len)\<close>: the three blocks in the order of the source.
  \<open>n\<close> is the argument \<^verbatim>\<open>len\<close>, the number of bytes of the inbound buffer.
\<close>

definition ctcp_receive ::
  "ctcp_consts \<Rightarrow> ctcp_state \<Rightarrow> ctcp_segment \<Rightarrow> nat \<Rightarrow> ctcp_result" where
  "ctcp_receive K state segment n =
     receive_fin K (receive_data K (receive_ack K state segment) segment n) segment"

text \<open>A sequence of inbound buffers; nothing can be received on a destroyed connection.\<close>

fun ctcp_receive_all ::
  "ctcp_consts \<Rightarrow> ctcp_result \<Rightarrow> (ctcp_segment \<times> nat) list \<Rightarrow> ctcp_result" where
  "ctcp_receive_all K r [] = r"
| "ctcp_receive_all K (Live state) ((segment, n) # rest) =
     ctcp_receive_all K (ctcp_receive K state segment n) rest"
| "ctcp_receive_all K r (a # rest) = r"

text \<open>The payloads \<^verbatim>\<open>ctcp_receive\<close> is handed, in arrival order.\<close>

fun payloads :: "ctcp_consts \<Rightarrow> (ctcp_segment \<times> nat) list \<Rightarrow> byte list list" where
  "payloads K [] = []"
| "payloads K ((segment, n) # rest) =
     (if SEGMENT_HDR K < n then take (n - SEGMENT_HDR K) (seg_data segment) # payloads K rest
      else payloads K rest)"

section \<open>\<^verbatim>\<open>ctcp_output\<close>\<close>

text \<open>
  \<^verbatim>\<open>data_len = ntohs(segment->len) - sizeof(ctcp_segment_t)\<close> is computed in
  \<^verbatim>\<open>size_t\<close>: it wraps modulo \<open>2 ^ 64\<close> when the length field is below the header size.
\<close>

definition output_data_len :: "ctcp_consts \<Rightarrow> ctcp_segment \<Rightarrow> nat" where
  "output_data_len K segment =
     (unat (ntohs K (seg_len segment)) + 2 ^ 64 - SEGMENT_HDR K mod 2 ^ 64) mod 2 ^ 64"

fun output_walk ::
  "ctcp_consts \<Rightarrow> conn_t \<Rightarrow> u32 \<Rightarrow> ctcp_segment list \<Rightarrow> conn_t \<times> u32 \<times> ctcp_segment list" where
  "output_walk K c rb [] = (c, rb, [])"
| "output_walk K c rb (segment # rest) =
     (if seg_seqno segment = rb
      then output_walk K (conn_output c (seg_data segment) (output_data_len K segment))
             (rb + of_nat (output_data_len K segment)) rest
      else (c, rb, segment # rest))"

definition ctcp_output :: "ctcp_consts \<Rightarrow> ctcp_state \<Rightarrow> ctcp_state" where
  "ctcp_output K state =
     (case output_walk K (conn state) (recv_base state) (segments state) of
        (c, rb, segs) \<Rightarrow> state\<lparr>conn := c, recv_base := rb, segments := segs\<rparr>)"

section \<open>\<^verbatim>\<open>ctcp_timer\<close>: the retransmission sweeper\<close>

text \<open>
  \<^verbatim>\<open>ctcp_timer\<close> calls \<^verbatim>\<open>current_time_ms()\<close> twice at a node: in the test of line 183
  and, when the test holds, for the stamp of line 186. A clock gives, for the node at
  position \<open>i\<close> of the list being walked, the pair of these two readings; no relation
  between the readings is assumed.

  \<open>timer_walk\<close> is the inner loop over the nodes of one connection's list, \<open>i\<close> the
  position of the first node still to visit. The test reads \<^verbatim>\<open>state->last_sent_time\<close> and
  the retransmission counts in \<^verbatim>\<open>state->retransmit_count\<close>, both fields of the
  connection.
\<close>

type_synonym clock = "nat \<Rightarrow> int \<times> int"

definition retransmit :: "ctcp_consts \<Rightarrow> int \<Rightarrow> ctcp_state \<Rightarrow> ctcp_segment \<Rightarrow> ctcp_state" where
  "retransmit K stamp state segment =
     state\<lparr>conn := conn_send (conn state) segment (unat (ntohs K (seg_len segment))),
           retransmit_count := retransmit_count state + 1,
           last_sent_time := stamp\<rparr>"

fun timer_walk ::
  "ctcp_consts \<Rightarrow> clock \<Rightarrow> nat \<Rightarrow> ctcp_state \<Rightarrow> ctcp_segment list \<Rightarrow> ctcp_result" where
  "timer_walk K ck i state [] = Live state"
| "timer_walk K ck i state (segment # rest) =
     (if rt_timeout state < fst (ck i) - last_sent_time state then
        (if MAX_NUM_XMITS K \<le> retransmit_count (retransmit K (snd (ck i)) state segment)
         then Destroyed_In_Walk (ctcp_destroy (retransmit K (snd (ck i)) state segment)) rest
         else timer_walk K ck (Suc i) (retransmit K (snd (ck i)) state segment) rest)
      else timer_walk K ck (Suc i) state rest)"

text \<open>
  The outer loop over \<^verbatim>\<open>state_list\<close>: one result per connection visited; \<open>cks j\<close> is
  the clock during the walk of the connection at position \<open>j\<close> of the registry, \<open>j\<close> the
  position of the first connection still to visit. After a connection was destroyed
  inside its walk, \<^verbatim>\<open>state = state->next\<close> reads the freed state, so the sweep ends there.
\<close>

fun ctcp_timer ::
  "ctcp_consts \<Rightarrow> (nat \<Rightarrow> clock) \<Rightarrow> nat \<Rightarrow> ctcp_state list \<Rightarrow> ctcp_result list" where
  "ctcp_timer K cks j [] = []"
| "ctcp_timer K cks j (state # rest) =
     (case timer_walk K (cks j) 0 state (segments state) of
        Live state' \<Rightarrow> Live state' # ctcp_timer K cks (Suc j) rest
      | r \<Rightarrow> [r])"

fun is_live :: "ctcp_result \<Rightarrow> bool" where
  "is_live (Live state) = True"
| "is_live r = False"

section \<open>Runs of one connection\<close>

text \<open>
  The entry points the driver can call on a connection, and a run: the calls applied in
  order, starting from a state. A destroyed connection takes no further call.
  \<open>Ev_Timer ck\<close> is the part of a sweep that walks this connection, under the clock \<open>ck\<close>.
\<close>

datatype event =
  Ev_Read int "input list"
| Ev_Receive ctcp_segment nat
| Ev_Output
| Ev_Timer clock

fun step :: "ctcp_consts \<Rightarrow> ctcp_result \<Rightarrow> event \<Rightarrow> ctcp_result" where
  "step K (Live state) (Ev_Read now ins) = Live (ctcp_read K now state ins)"
| "step K (Live state) (Ev_Receive segment n) = ctcp_receive K state segment n"
| "step K (Live state) Ev_Output = Live (ctcp_output K state)"
| "step K (Live state) (Ev_Timer ck) = timer_walk K ck 0 state (segments state)"
| "step K r ev = r"

definition run :: "ctcp_consts \<Rightarrow> ctcp_state \<Rightarrow> event list \<Rightarrow> ctcp_result" where
  "run K state evs = foldl (step K) (Live state) evs"

text \<open>The state \<^verbatim>\<open>ctcp_init\<close> creates for a connection object and a configuration.\<close>

definition init_state :: "ctcp_consts \<Rightarrow> conn_t \<Rightarrow> ctcp_config \<Rightarrow> ctcp_state option" where
  "init_state K c cfg = fst (ctcp_init K (Some c) cfg [])"

section \<open>Concrete inputs\<close>

text \<open>The byte order conversions of a little-endian host: they reverse the bytes.\<close>

definition swap32 :: "u32 \<Rightarrow> u32" where
  "swap32 x =
     push_bit 24 (take_bit 8 x) OR push_bit 16 (take_bit 8 (drop_bit 8 x)) OR
     push_bit 8 (take_bit 8 (drop_bit 16 x)) OR drop_bit 24 x"

definition swap16 :: "u16 \<Rightarrow> u16" where
  "swap16 x = push_bit 8 (take_bit 8 x) OR drop_bit 8 x"

text \<open>
  Values for the constants, as an instance to evaluate on: 1440 payload bytes per
  segment, 6 transmissions, an 18-byte header, the flag bits 0x01 (FIN) and 0x10 (ACK),
  and a little-endian host. On such a host the length field written with \<^verbatim>\<open>htonl\<close>
  holds 0 for every length below \<open>2 ^ 16\<close>.
\<close>

definition K0 :: ctcp_consts where
  "K0 = \<lparr>MAX_SEG_DATA_SIZE = 1440, MAX_NUM_XMITS = 6, SEGMENT_HDR = 18,
         TH_FIN = 0x01, TH_ACK = 0x10, htonl = swap32, ntohs = swap16\<rparr>"

text \<open>A clock that reads \<open>t\<close> at every call, and one that advances from node to node.\<close>

definition at_time :: "int \<Rightarrow> clock" where
  "at_time t = (\<lambda>i. (t, t))"

definition rising :: clock where
  "rising = (\<lambda>i. (200 + 100 * int i, 201 + 100 * int i))"

definition conn0 :: conn_t where
  "conn0 = \<lparr>sent = [], sink = [], removed = False\<rparr>"

text \<open>A fresh connection with windows of \<open>w\<close> segments and a timeout of 50 ms.\<close>

definition fresh :: "nat \<Rightarrow> ctcp_state" where
  "fresh w =
     \<lparr>conn = conn0, segments = [],
      seqno = 1, ackno = 0, send_base = 1, recv_base = 1,
      send_window = of_nat (w * 1440), recv_window = of_nat (w * 1440),
      rt_timeout = 50, retransmit_count = 0, last_sent_time = 0\<rparr>"

text \<open>
  Segments as this code builds them on that host: data at a sequence number, a bare ACK,
  a bare FIN. Their length field holds 0.
\<close>

definition data_seg :: "u32 \<Rightarrow> byte list \<Rightarrow> ctcp_segment" where
  "data_seg sq bs = zero_segment\<lparr>seg_seqno := sq, seg_len := 0, seg_data := bs\<rparr>"

definition ack_seg :: "u32 \<Rightarrow> ctcp_segment" where
  "ack_seg a = zero_segment\<lparr>seg_flags := 0x10, seg_ackno := a, seg_len := 0\<rparr>"

definition fin_seg :: "u32 \<Rightarrow> ctcp_segment" where
  "fin_seg sq = zero_segment\<lparr>seg_flags := 0x01, seg_seqno := sq, seg_len := 0\<rparr>"

text \<open>A sender that has read four bytes twice: the segments [1, 5) and [5, 9) are in flight.\<close>

definition two_in_flight :: ctcp_state where
  "two_in_flight = ctcp_read K0 0 (fresh 2) [Bytes [1, 2, 3, 4], Bytes [5, 6, 7, 8]]"


text \<open>
  The same sender after five sweeps that each retransmitted the first segment (with the
  byte count 0 that \<^verbatim>\<open>ntohs\<close> reads from the length field): one more retransmission
  reaches \<^verbatim>\<open>MAX_NUM_XMITS\<close>.
\<close>

definition five_retries :: ctcp_state where
  "five_retries =
     two_in_flight\<lparr>conn := conn0\<lparr>sent :=
         [(data_seg 1 [1, 2, 3, 4], 22), (data_seg 5 [5, 6, 7, 8], 22),
          (data_seg 1 [1, 2, 3, 4], 0), (data_seg 1 [1, 2, 3, 4], 0),
          (data_seg 1 [1, 2, 3, 4], 0), (data_seg 1 [1, 2, 3, 4], 0),
          (data_seg 1 [1, 2, 3, 4], 0)]\<rparr>,
       retransmit_count := 5, last_sent_time := 500\<rparr>"

text \<open>A sender that read [1, 5) at time 0 and [5, 9) at time 100.\<close>

definition staggered :: ctcp_state where
  "staggered =
     ctcp_read K0 100 (ctcp_read K0 0 (fresh 2) [Bytes [1, 2, 3, 4]]) [Bytes [5, 6, 7, 8]]"

text \<open>A sender that read four bytes and then met the end of its input.\<close>

definition half_closed_sender :: ctcp_state where
  "half_closed_sender = ctcp_read K0 0 (fresh 2) [Bytes [1, 2, 3, 4], Eof]"

section \<open>Basic facts\<close>

lemma init_state_fresh:
  "init_state K0 conn0 \<lparr>cfg_send_window = w, cfg_recv_window = w, cfg_rt_timeout = 50\<rparr>
     = Some (fresh w)"
  by (simp add: init_state_def ctcp_init_def fresh_def K0_def Let_def)

lemma len_field_K0: "len_field K0 22 = 0" "len_field K0 18 = 0" "len_field K0 20 = 0"
  by (simp_all add: len_field_def K0_def swap32_def)

lemma ntohs_K0: "ntohs K0 0 = 0"
  by (simp add: K0_def swap16_def)

lemma swap32_example: "swap32 0x12345678 = 0x78563412"
  by (simp add: swap32_def)

text \<open>On the little-endian host the length field holds 0 for every length below \<open>2 ^ 16\<close>.\<close>

lemma len_field_little_endian:
  assumes "x < 65536"
  shows "len_field K0 x = 0"
proof -
  let ?w = "of_nat x :: u32"
  have "take_bit 16 x = x"
    using assms by (simp add: take_bit_nat_eq_self)
  then have tb: "take_bit 16 ?w = ?w"
    by (metis take_bit_of_nat)
  have low: "n < 16" if "bit ?w n" for n
    using that tb by (metis bit_take_bit_iff)
  have "(ucast (swap32 ?w) :: u16) = 0"
    by (rule bit_word_eqI)
       (auto simp: swap32_def bit_ucast_iff bit_or_iff bit_take_bit_iff bit_push_bit_iff
          bit_drop_bit_eq dest!: low)
  then show ?thesis by (simp add: len_field_def K0_def)
qed

lemmas model_defs =
  ctcp_receive_def receive_ack_def receive_data_def receive_fin_def ack_segment_def
  conn_send_def conn_output_def conn_remove_def ctcp_destroy_def send_data_def send_fin_def
  data_segment_def fin_segment_def zero_segment_def retransmit_def len_field_def

lemmas input_defs =
  K0_def fresh_def conn0_def data_seg_def ack_seg_def fin_seg_def swap32_def swap16_def
  at_time_def

lemma two_in_flight_eq:
  "two_in_flight =
     (fresh 2)\<lparr>conn := conn0\<lparr>sent := [(data_seg 1 [1, 2, 3, 4], 22), (data_seg 5 [5, 6, 7, 8], 22)]\<rparr>,
               segments := [data_seg 1 [1, 2, 3, 4], data_seg 5 [5, 6, 7, 8]], seqno := 9\<rparr>"
  by (simp add: two_in_flight_def model_defs input_defs)

lemma end_signals_append: "end_signals (xs @ ys) = end_signals xs + end_signals ys"
  by (induction xs rule: end_signals.induct) simp_all

lemma sink_bytes_append: "sink_bytes (xs @ ys) = sink_bytes xs @ sink_bytes ys"
  by (induction xs rule: sink_bytes.induct) simp_all

lemma sink_bytes_outputs: "sink_bytes (map Output ps) = concat ps"
  by (induction ps) simp_all

section \<open>The loop that removes acknowledged segments\<close>



lemma set_remove_acked: "set (remove_acked a segs) \<subseteq> set segs"
  by (induction segs) auto

text \<open>On a list in ascending seqno order the loop is the filter "seqno not below ackno".\<close>

lemma remove_acked_sorted:
  "sorted_wrt (\<lambda>x y. seg_seqno x \<le> seg_seqno y) segs \<Longrightarrow>
     remove_acked a segs = filter (\<lambda>s. a \<le> seg_seqno s) segs"
proof (induction segs)
  case Nil
  show ?case by simp
next
  case (Cons s segs)
  show ?case
  proof (cases "seg_seqno s < a")
    case True
    with Cons show ?thesis by auto
  next
    case False
    then have "\<forall>x\<in>set segs. a \<le> seg_seqno x" using Cons.prems by fastforce
    then have "filter (\<lambda>s. a \<le> seg_seqno s) segs = segs" by (simp add: filter_id_conv)
    with False show ?thesis by simp
  qed
qed

text \<open>The lemma at the sender with [1, 5) and [5, 9) in flight and the ackno 5.\<close>

lemma remove_acked_sorted_witness:
  "sorted_wrt (\<lambda>x y. seg_seqno x \<le> seg_seqno y) (segments two_in_flight) \<and>
   remove_acked 5 (segments two_in_flight) =
     filter (\<lambda>s. 5 \<le> seg_seqno s) (segments two_in_flight)"
proof -
  have h: "sorted_wrt (\<lambda>x y. seg_seqno x \<le> seg_seqno y) (segments two_in_flight)"
    by (simp add: two_in_flight_eq input_defs zero_segment_def)
  show ?thesis using h remove_acked_sorted [OF h, of 5] by blast
qed

section \<open>Inbound data (claim C1)\<close>

lemma receive_live:
  "seg_flags segment AND TH_FIN K = 0 \<Longrightarrow>
     ctcp_receive K state segment n = Live (receive_data K (receive_ack K state segment) segment n)"
  by (simp add: ctcp_receive_def receive_fin_def)

lemma receive_step_sink:
  "sink (conn (receive_data K (receive_ack K state segment) segment n)) =
     sink (conn state) @ map Output (payloads K [(segment, n)])"
  by (simp add: receive_data_def receive_ack_def conn_send_def conn_output_def)

lemma receive_step_recv_base:
  "recv_base (receive_data K (receive_ack K state segment) segment n) = recv_base state"
  by (simp add: receive_data_def receive_ack_def)

lemma receive_step_segments:
  "set (segments (receive_data K (receive_ack K state segment) segment n)) \<subseteq> set (segments state)"
  using set_remove_acked by (simp add: receive_data_def receive_ack_def)

lemma payloads_Cons: "payloads K (a # rest) = payloads K [a] @ payloads K rest"
  by (cases a) simp

text \<open>
  Claim C1, as the code has it. \<^verbatim>\<open>ctcp_receive\<close> hands the payload of every inbound
  buffer longer than the header to the sink at once, in arrival order, whatever its seqno:
  for any sequence of arrivals without FIN the connection stays live and the sink has
  received exactly the arriving payloads, one after the other. Nothing is held back and
  nothing is discarded: \<^verbatim>\<open>ctcp_receive\<close> neither reads nor advances \<open>recv_base\<close> and adds
  nothing to the segment list (the list \<^verbatim>\<open>ctcp_output\<close> drains while contiguous). So the
  sink bytes are the original stream when the segments arrive once each in original order.
\<close>

theorem receive_delivers_every_payload_on_arrival:
  assumes "list_all (\<lambda>a. seg_flags (fst a) AND TH_FIN K = 0) arrivals"
  shows "\<exists>state'. ctcp_receive_all K (Live state) arrivals = Live state' \<and>
           sink (conn state') = sink (conn state) @ map Output (payloads K arrivals) \<and>
           sink_bytes (sink (conn state')) =
             sink_bytes (sink (conn state)) @ concat (payloads K arrivals) \<and>
           recv_base state' = recv_base state \<and>
           set (segments state') \<subseteq> set (segments state)"
  using assms
proof (induction arrivals arbitrary: state)
  case Nil
  show ?case by simp
next
  case (Cons a arrivals)
  obtain segment n where a: "a = (segment, n)" by (cases a)
  let ?st = "receive_data K (receive_ack K state segment) segment n"
  have live: "ctcp_receive K state segment n = Live ?st"
    using Cons.prems a by (simp add: receive_live)
  have rest: "list_all (\<lambda>a. seg_flags (fst a) AND TH_FIN K = 0) arrivals"
    using Cons.prems by simp
  from Cons.IH [OF rest, of ?st] obtain state' where
    s: "ctcp_receive_all K (Live ?st) arrivals = Live state'"
       "sink (conn state') = sink (conn ?st) @ map Output (payloads K arrivals)"
       "recv_base state' = recv_base ?st"
       "set (segments state') \<subseteq> set (segments ?st)"
    by blast
  have all: "ctcp_receive_all K (Live state) (a # arrivals) = Live state'"
    using s(1) live a by simp
  have snk: "sink (conn state') = sink (conn state) @ map Output (payloads K (a # arrivals))"
    using s(2) receive_step_sink [of K state segment n] payloads_Cons [of K a arrivals] a
    by simp
  have bytes: "sink_bytes (sink (conn state')) =
      sink_bytes (sink (conn state)) @ concat (payloads K (a # arrivals))"
    unfolding snk by (simp only: sink_bytes_append sink_bytes_outputs)
  have rb: "recv_base state' = recv_base state"
    using s(3) by (simp add: receive_step_recv_base)
  have sg: "set (segments state') \<subseteq> set (segments state)"
    using s(4) receive_step_segments [of K state segment n] by blast
  show ?case using all snk bytes rb sg by blast
qed

text \<open>The theorem at the two segments [1, 3) and [3, 5) arriving in order.\<close>

theorem receive_delivers_every_payload_on_arrival_witness:
  "list_all (\<lambda>a. seg_flags (fst a) AND TH_FIN K0 = 0)
     [(data_seg 1 [1, 2], 20), (data_seg 3 [3, 4], 20)] \<and>
   (\<exists>state'. ctcp_receive_all K0 (Live (fresh 2)) [(data_seg 1 [1, 2], 20), (data_seg 3 [3, 4], 20)]
        = Live state' \<and>
      sink (conn state') = [Output [1, 2], Output [3, 4]] \<and>
      sink_bytes (sink (conn state')) = [1, 2, 3, 4] \<and>
      recv_base state' = recv_base (fresh 2) \<and>
      set (segments state') \<subseteq> set (segments (fresh 2)))"
proof -
  have h: "list_all (\<lambda>a. seg_flags (fst a) AND TH_FIN K0 = 0)
     [(data_seg 1 [1, 2], 20), (data_seg 3 [3, 4], 20)]"
    by (simp add: input_defs zero_segment_def)
  have p: "payloads K0 [(data_seg 1 [1, 2], 20), (data_seg 3 [3, 4], 20)] = [[1, 2], [3, 4]]"
    by (simp add: input_defs zero_segment_def)
  have s: "sink (conn (fresh 2)) = []" by (simp add: input_defs)
  show ?thesis
    using h receive_delivers_every_payload_on_arrival [OF h, of "fresh 2"]
    unfolding p s by simp
qed

text \<open>
  The claim as stated fails. A segment ahead of \<open>recv_base\<close> (seqno 3 at \<open>recv_base\<close> 1) is
  delivered at once, not buffered; with the arrival order [3, 5), [1, 3) the sink gets the
  bytes 3, 4, 1, 2; and a duplicate of [1, 3) is delivered a second time.
\<close>

theorem reordered_and_duplicate_delivery_counterexample:
  "recv_base (fresh 2) < seg_seqno (data_seg 3 [3, 4]) \<and>
   ctcp_receive K0 (fresh 2) (data_seg 3 [3, 4]) 20 =
     Live ((fresh 2)\<lparr>conn := conn0\<lparr>sent := [(ack_seg 5, 18)], sink := [Output [3, 4]]\<rparr>\<rparr>) \<and>
   sink_bytes (sink (result_conn (ctcp_receive_all K0 (Live (fresh 2))
     [(data_seg 3 [3, 4], 20), (data_seg 1 [1, 2], 20)]))) = [3, 4, 1, 2] \<and>
   sink_bytes (sink (result_conn (ctcp_receive_all K0 (Live (fresh 2))
     [(data_seg 1 [1, 2], 20), (data_seg 1 [1, 2], 20), (data_seg 3 [3, 4], 20)])))
       = [1, 2, 1, 2, 3, 4]"
  by (simp add: model_defs input_defs)

section \<open>The send window (claim C2)\<close>

text \<open>
  Claim C2 at a failing input. A connection with a send window of one segment (1440
  bytes) whose source hands over 1000 bytes twice: the loop test holds before the second
  read (1001 < 1441), the read is capped by the buffer size and not by the room left in
  the window, and \<open>seqno\<close> ends at 2001, above \<open>send_base + send_window\<close> = 1441.
\<close>

theorem read_overshoots_window:
  "seqno (ctcp_read K0 0 (fresh 1) [Bytes (replicate 1000 7), Bytes (replicate 1000 7)]) = 2001 \<and>
   send_base (ctcp_read K0 0 (fresh 1) [Bytes (replicate 1000 7), Bytes (replicate 1000 7)])
     + send_window (ctcp_read K0 0 (fresh 1) [Bytes (replicate 1000 7), Bytes (replicate 1000 7)])
     = 1441 \<and>
   \<not> seqno (ctcp_read K0 0 (fresh 1) [Bytes (replicate 1000 7), Bytes (replicate 1000 7)])
       \<le> send_base (ctcp_read K0 0 (fresh 1) [Bytes (replicate 1000 7), Bytes (replicate 1000 7)])
         + send_window (ctcp_read K0 0 (fresh 1) [Bytes (replicate 1000 7), Bytes (replicate 1000 7)])"
  by (simp add: model_defs input_defs)

section \<open>ACK processing (claim C3)\<close>




section \<open>Retry exhaustion (claim C4)\<close>

lemma five_retries_run:
  "run K0 two_in_flight
     [Ev_Timer (at_time 100), Ev_Timer (at_time 200), Ev_Timer (at_time 300),
      Ev_Timer (at_time 400), Ev_Timer (at_time 500)]
     = Live five_retries"
  by (simp add: run_def five_retries_def two_in_flight_eq model_defs input_defs)

text \<open>
  Claim C4 at a failing input. After five sweeps, at 100, 200, 300, 400 and 500 (the
  clock reading the same at every call within a sweep), the connection's count is 5. In
  the sweep at 600 the first segment is retransmitted, the count reaches
  \<^verbatim>\<open>MAX_NUM_XMITS\<close> = 6 and \<^verbatim>\<open>ctcp_destroy\<close> runs inside the walk, with the second
  node of the list still to visit (the C loop then reads the freed node and the freed
  state; the connection registered behind it is not reached in the model). The sink has
  received no end-of-input signal: \<^verbatim>\<open>ctcp_destroy\<close> makes none.
\<close>

theorem timer_destroys_inside_the_walk:
  "run K0 two_in_flight
     [Ev_Timer (at_time 100), Ev_Timer (at_time 200), Ev_Timer (at_time 300),
      Ev_Timer (at_time 400), Ev_Timer (at_time 500)]
     = Live five_retries \<and>
   segments five_retries = [data_seg 1 [1, 2, 3, 4], data_seg 5 [5, 6, 7, 8]] \<and>
   ctcp_timer K0 (\<lambda>j. at_time 600) 0 [five_retries, fresh 2] =
     [Destroyed_In_Walk (ctcp_destroy (retransmit K0 600 five_retries (data_seg 1 [1, 2, 3, 4])))
        [data_seg 5 [5, 6, 7, 8]]] \<and>
   sink (ctcp_destroy (retransmit K0 600 five_retries (data_seg 1 [1, 2, 3, 4]))) = [] \<and>
   end_signals (sink (ctcp_destroy (retransmit K0 600 five_retries (data_seg 1 [1, 2, 3, 4])))) = 0"
  by (simp add: five_retries_run)
     (simp add: five_retries_def two_in_flight_eq model_defs input_defs)

section \<open>Inbound FIN (claim C5)\<close>

text \<open>
  Claim C5, as the code has it. On every inbound segment with the FIN flag, whatever its
  seqno and whatever the state of the local side, \<^verbatim>\<open>ctcp_receive\<close> signals end-of-input
  to the sink exactly once (after the payload, if the buffer carries one) and destroys the
  connection. The state has no \<open>half_closed\<close> flag and no "peer closed" mark to wait in.
\<close>

theorem fin_always_signals_end_and_destroys:
  assumes "seg_flags segment AND TH_FIN K \<noteq> 0"
  shows "\<exists>c. ctcp_receive K state segment n = Destroyed c \<and> removed c \<and>
           sink c = sink (conn state)
                      @ (if SEGMENT_HDR K < n
                         then [Output (take (n - SEGMENT_HDR K) (seg_data segment))] else [])
                      @ [End_Of_Input] \<and>
           end_signals (sink c) = Suc (end_signals (sink (conn state)))"
  using assms by (simp add: model_defs end_signals_append)

theorem fin_always_signals_end_and_destroys_witness:
  "seg_flags (fin_seg 1) AND TH_FIN K0 \<noteq> 0 \<and>
   (\<exists>c. ctcp_receive K0 (fresh 2) (fin_seg 1) 18 = Destroyed c \<and> removed c \<and>
      sink c = sink (conn (fresh 2))
                 @ (if SEGMENT_HDR K0 < 18
                    then [Output (take (18 - SEGMENT_HDR K0) (seg_data (fin_seg 1)))] else [])
                 @ [End_Of_Input] \<and>
      end_signals (sink c) = Suc (end_signals (sink (conn (fresh 2)))))"
proof -
  have h: "seg_flags (fin_seg 1) AND TH_FIN K0 \<noteq> 0"
    by (simp add: input_defs zero_segment_def)
  show ?thesis
    using h fin_always_signals_end_and_destroys [OF h, of "fresh 2" 18] by simp
qed

text \<open>
  The claim as stated fails twice on a fresh connection, which has sent nothing (so no
  local FIN was sent, let alone acknowledged): an in-order FIN (seqno 1 = \<open>recv_base\<close>)
  destroys it at once, and a FIN at seqno 77, not the one expected, is acted on the same way.
\<close>

theorem fin_unconditional_counterexample:
  "seqno (fresh 2) = send_base (fresh 2) \<and> sent (conn (fresh 2)) = [] \<and>
   seg_seqno (fin_seg 1) = recv_base (fresh 2) \<and>
   ctcp_receive K0 (fresh 2) (fin_seg 1) 18 =
     Destroyed (conn0\<lparr>sink := [End_Of_Input], removed := True\<rparr>) \<and>
   seg_seqno (fin_seg 77) \<noteq> recv_base (fresh 2) \<and>
   ctcp_receive K0 (fresh 2) (fin_seg 77) 18 =
     Destroyed (conn0\<lparr>sink := [End_Of_Input], removed := True\<rparr>)"
  by (simp add: model_defs input_defs)

section \<open>The sweeper's due test (claim C6)\<close>

lemma timer_walk_append:
  "timer_walk K ck i state before = Live reached \<Longrightarrow>
     timer_walk K ck i state (before @ rest) = timer_walk K ck (i + length before) reached rest"
proof (induction before arbitrary: i state)
  case Nil
  then show ?case by simp
next
  case (Cons s before)
  show ?case
  proof (cases "rt_timeout state < fst (ck i) - last_sent_time state")
    case False
    then have "timer_walk K ck (Suc i) state before = Live reached"
      using Cons.prems by simp
    then show ?thesis using Cons.IH [of "Suc i" state] False by simp
  next
    case due: True
    let ?st = "retransmit K (snd (ck i)) state s"
    have below: "\<not> MAX_NUM_XMITS K \<le> retransmit_count ?st"
      using Cons.prems due by (auto split: if_splits)
    then have "timer_walk K ck (Suc i) ?st before = Live reached"
      using Cons.prems due by simp
    then show ?thesis using Cons.IH [of "Suc i" ?st] due below by simp
  qed
qed

lemma ctcp_timer_append:
  "list_all is_live (ctcp_timer K cks j earlier) \<Longrightarrow>
     ctcp_timer K cks j (earlier @ rest) =
       ctcp_timer K cks j earlier @ ctcp_timer K cks (j + length earlier) rest"
proof (induction earlier arbitrary: j)
  case Nil
  show ?case by simp
next
  case (Cons state earlier)
  show ?case
  proof (cases "timer_walk K (cks j) 0 state (segments state)")
    case (Live state')
    then have "list_all is_live (ctcp_timer K cks (Suc j) earlier)"
      using Cons.prems by simp
    then show ?thesis using Cons.IH [of "Suc j"] Live by simp
  next
    case (Destroyed c)
    then show ?thesis using Cons.prems by simp
  next
    case (Destroyed_In_Walk c nodes)
    then show ?thesis using Cons.prems by simp
  qed
qed

text \<open>
  Claim C6, as the code has it. The sweeper has one time stamp and one count per
  connection, not per segment. In a sweep, a registered connection is walked when no
  connection before it in the registry was destroyed in that sweep. When the walk of a
  connection reaches a queued segment, at any position of the list, with the connection's
  count still more than one below \<^verbatim>\<open>MAX_NUM_XMITS\<close>, the segment is retransmitted if and
  only if the clock reading of the test minus the connection's \<open>last_sent_time\<close> (as
  left by the connection's latest send or retransmission, of whichever segment) exceeds
  the connection's \<open>rt_timeout\<close>; a retransmission sets the connection's \<open>last_sent_time\<close>
  to a fresh clock reading and increments the connection's \<open>retransmit_count\<close>; and the
  walk goes on with the next segment from the connection state so updated. Past the last
  segment the walk ends and leaves the connection state it has arrived at.
\<close>

theorem sweep_tests_every_segment_against_the_connection_stamp:
  assumes "list_all is_live (ctcp_timer K cks 0 earlier)"
    and "segments state = before @ segment # after"
    and "timer_walk K (cks (length earlier)) 0 state before = Live reached"
    and "retransmit_count reached + 1 < MAX_NUM_XMITS K"
  shows "ctcp_timer K cks 0 (earlier @ state # later) =
           ctcp_timer K cks 0 earlier @
             (case timer_walk K (cks (length earlier)) 0 state (segments state) of
                Live state' \<Rightarrow> Live state' # ctcp_timer K cks (Suc (length earlier)) later
              | r \<Rightarrow> [r]) \<and>
         timer_walk K (cks (length earlier)) 0 state (segments state) =
           timer_walk K (cks (length earlier)) (Suc (length before))
             (if rt_timeout reached
                   < fst (cks (length earlier) (length before)) - last_sent_time reached
              then reached\<lparr>conn := conn_send (conn reached) segment
                                      (unat (ntohs K (seg_len segment))),
                           retransmit_count := retransmit_count reached + 1,
                           last_sent_time := snd (cks (length earlier) (length before))\<rparr>
              else reached)
             after \<and>
         timer_walk K (cks (length earlier)) (length (segments state)) final [] = Live final"
proof -
  let ?ck = "cks (length earlier)"
  have registry: "ctcp_timer K cks 0 (earlier @ state # later) =
      ctcp_timer K cks 0 earlier @ ctcp_timer K cks (length earlier) (state # later)"
    using ctcp_timer_append [OF assms(1), of "state # later"] by simp
  have walk: "timer_walk K ?ck 0 state (segments state) =
      timer_walk K ?ck (length before) reached (segment # after)"
    using timer_walk_append [OF assms(3), of "segment # after"] assms(2) by simp
  have below: "\<not> MAX_NUM_XMITS K
      \<le> retransmit_count (retransmit K (snd (?ck (length before))) reached segment)"
    using assms(4) by (simp add: retransmit_def)
  have node: "timer_walk K ?ck (length before) reached (segment # after) =
      timer_walk K ?ck (Suc (length before))
        (if rt_timeout reached < fst (?ck (length before)) - last_sent_time reached
         then retransmit K (snd (?ck (length before))) reached segment else reached)
        after"
    using below by simp
  have first: "ctcp_timer K cks 0 (earlier @ state # later) =
      ctcp_timer K cks 0 earlier @
        (case timer_walk K ?ck 0 state (segments state) of
           Live state' \<Rightarrow> Live state' # ctcp_timer K cks (Suc (length earlier)) later
         | r \<Rightarrow> [r])"
    unfolding registry by simp
  have second: "timer_walk K ?ck 0 state (segments state) =
      timer_walk K ?ck (Suc (length before))
        (if rt_timeout reached < fst (?ck (length before)) - last_sent_time reached
         then reached\<lparr>conn := conn_send (conn reached) segment
                                 (unat (ntohs K (seg_len segment))),
                      retransmit_count := retransmit_count reached + 1,
                      last_sent_time := snd (?ck (length before))\<rparr>
         else reached)
        after"
    unfolding walk node by (simp add: retransmit_def)
  have third: "timer_walk K ?ck (length (segments state)) final [] = Live final"
    by simp
  show ?thesis using first second third by (intro conjI)
qed

lemma staggered_eq:
  "staggered =
     (fresh 2)\<lparr>conn := conn0\<lparr>sent := [(data_seg 1 [1, 2, 3, 4], 22), (data_seg 5 [5, 6, 7, 8], 22)]\<rparr>,
               segments := [data_seg 1 [1, 2, 3, 4], data_seg 5 [5, 6, 7, 8]], seqno := 9,
               last_sent_time := 100\<rparr>"
  by (simp add: staggered_def model_defs input_defs)

text \<open>
  The theorem at a registry of three connections under a clock that advances by 100 from
  node to node (200 and 201 at the first node, 300 and 301 at the second). The connection
  in the middle sent [1, 5) at 0 and [5, 9) at 100, with a timeout of 50: the walk reaches
  the second segment after it retransmitted the first with the stamp 201, and since
  300 - 201 > 50 it retransmits the second too, with the stamp 301.
\<close>

theorem sweep_tests_every_segment_against_the_connection_stamp_witness:
  "list_all is_live (ctcp_timer K0 (\<lambda>j. rising) 0 [two_in_flight]) \<and>
   segments staggered = [data_seg 1 [1, 2, 3, 4]] @ data_seg 5 [5, 6, 7, 8] # [] \<and>
   timer_walk K0 rising 0 staggered [data_seg 1 [1, 2, 3, 4]] =
     Live (retransmit K0 201 staggered (data_seg 1 [1, 2, 3, 4])) \<and>
   retransmit_count (retransmit K0 201 staggered (data_seg 1 [1, 2, 3, 4])) + 1
     < MAX_NUM_XMITS K0 \<and>
   ctcp_timer K0 (\<lambda>j. rising) 0 ([two_in_flight] @ staggered # [fresh 2]) =
     ctcp_timer K0 (\<lambda>j. rising) 0 [two_in_flight] @
       (case timer_walk K0 rising 0 staggered (segments staggered) of
          Live state' \<Rightarrow>
            Live state' # ctcp_timer K0 (\<lambda>j. rising) (Suc (length [two_in_flight])) [fresh 2]
        | r \<Rightarrow> [r]) \<and>
   timer_walk K0 rising 0 staggered (segments staggered) =
     Live (retransmit K0 301 (retransmit K0 201 staggered (data_seg 1 [1, 2, 3, 4]))
             (data_seg 5 [5, 6, 7, 8])) \<and>
   timer_walk K0 rising (length (segments staggered))
       (retransmit K0 301 (retransmit K0 201 staggered (data_seg 1 [1, 2, 3, 4]))
          (data_seg 5 [5, 6, 7, 8])) [] =
     Live (retransmit K0 301 (retransmit K0 201 staggered (data_seg 1 [1, 2, 3, 4]))
             (data_seg 5 [5, 6, 7, 8]))"
proof -
  have h1: "list_all is_live (ctcp_timer K0 (\<lambda>j. rising) 0 [two_in_flight])"
    by (simp add: two_in_flight_eq rising_def model_defs input_defs)
  have h2: "segments staggered = [data_seg 1 [1, 2, 3, 4]] @ data_seg 5 [5, 6, 7, 8] # []"
    by (simp add: staggered_eq)
  have h3: "timer_walk K0 ((\<lambda>j. rising) (length [two_in_flight])) 0 staggered
      [data_seg 1 [1, 2, 3, 4]] = Live (retransmit K0 201 staggered (data_seg 1 [1, 2, 3, 4]))"
    by (simp add: staggered_eq rising_def model_defs input_defs)
  have h4: "retransmit_count (retransmit K0 201 staggered (data_seg 1 [1, 2, 3, 4])) + 1
      < MAX_NUM_XMITS K0"
    by (simp add: staggered_eq model_defs input_defs)
  note t = sweep_tests_every_segment_against_the_connection_stamp
    [OF h1 h2 h3 h4, where later = "[fresh 2]"
       and final = "retransmit K0 301 (retransmit K0 201 staggered (data_seg 1 [1, 2, 3, 4]))
          (data_seg 5 [5, 6, 7, 8])"]
  have due: "rt_timeout (retransmit K0 201 staggered (data_seg 1 [1, 2, 3, 4]))
      < fst (rising 1) - last_sent_time (retransmit K0 201 staggered (data_seg 1 [1, 2, 3, 4]))"
    by (simp add: staggered_eq rising_def model_defs input_defs)
  have stamp: "snd (rising (length [data_seg 1 [1, 2, 3, 4]])) = 301"
    by (simp add: rising_def)
  have c: "timer_walk K0 rising 0 staggered (segments staggered) =
     Live (retransmit K0 301 (retransmit K0 201 staggered (data_seg 1 [1, 2, 3, 4]))
             (data_seg 5 [5, 6, 7, 8]))"
    unfolding t [THEN conjunct2, THEN conjunct1] using due stamp by (simp add: retransmit_def)
  show ?thesis
    by (intro conjI)
       (rule h1 h2 h3 h4 t [THEN conjunct1] c t [THEN conjunct2, THEN conjunct2])+
qed

text \<open>
  The claim as stated fails. The segment [1, 5) was sent at time 0 and [5, 9) at time
  100, with a timeout of 50. In a sweep in which the clock reads 120 the first segment is
  overdue by its own send time (120 - 0 > 50) and is not retransmitted: the connection's
  stamp is 100. In a sweep in which the clock reads 200 at every call both segments are
  overdue by their own send times, and only the first is retransmitted; the count
  incremented is the connection's.
\<close>

theorem per_segment_timing_counterexample:
  "segments (ctcp_read K0 0 (fresh 2) [Bytes [1, 2, 3, 4]]) = [data_seg 1 [1, 2, 3, 4]] \<and>
   last_sent_time (ctcp_read K0 0 (fresh 2) [Bytes [1, 2, 3, 4]]) = 0 \<and>
   segments staggered = [data_seg 1 [1, 2, 3, 4], data_seg 5 [5, 6, 7, 8]] \<and>
   last_sent_time staggered = 100 \<and> rt_timeout staggered = 50 \<and>
   rt_timeout staggered < 120 - 0 \<and>
   ctcp_timer K0 (\<lambda>j. at_time 120) 0 [staggered] = [Live staggered] \<and>
   rt_timeout staggered < 200 - 100 \<and>
   ctcp_timer K0 (\<lambda>j. at_time 200) 0 [staggered] =
     [Live (staggered\<lparr>conn := (conn staggered)\<lparr>sent :=
               sent (conn staggered) @ [(data_seg 1 [1, 2, 3, 4], 0)]\<rparr>,
             retransmit_count := 1, last_sent_time := 200\<rparr>)]"
proof -
  have first: "segments (ctcp_read K0 0 (fresh 2) [Bytes [1, 2, 3, 4]]) = [data_seg 1 [1, 2, 3, 4]] \<and>
      last_sent_time (ctcp_read K0 0 (fresh 2) [Bytes [1, 2, 3, 4]]) = 0"
    by (simp add: model_defs input_defs)
  have both: "segments staggered = [data_seg 1 [1, 2, 3, 4], data_seg 5 [5, 6, 7, 8]] \<and>
      last_sent_time staggered = 100 \<and> rt_timeout staggered = 50 \<and>
      rt_timeout staggered < 120 - 0 \<and> rt_timeout staggered < 200 - 100"
    by (simp add: staggered_eq fresh_def)
  have at_120: "ctcp_timer K0 (\<lambda>j. at_time 120) 0 [staggered] = [Live staggered]"
    by (simp add: staggered_eq fresh_def at_time_def)
  have at_200: "ctcp_timer K0 (\<lambda>j. at_time 200) 0 [staggered] =
     [Live (staggered\<lparr>conn := (conn staggered)\<lparr>sent :=
               sent (conn staggered) @ [(data_seg 1 [1, 2, 3, 4], 0)]\<rparr>,
             retransmit_count := 1, last_sent_time := 200\<rparr>)]"
    by (simp add: staggered_eq fresh_def at_time_def retransmit_def conn_send_def K0_def
        data_seg_def zero_segment_def swap16_def conn0_def)
  show ?thesis
    using first both at_120 at_200 by blast
qed

section \<open>No decoding, no checksum (claim C7)\<close>

text \<open>
  Claim C7, as the code has it. \<^verbatim>\<open>ctcp.c\<close> has no encode or decode step and no
  checksum: for an inbound buffer that holds at least a header, \<^verbatim>\<open>ctcp_receive\<close> reads the
  fields as they are and does the same whatever the checksum field holds. Such a segment
  is never dropped for its checksum: its payload, if any, goes to the sink and is
  acknowledged, and its FIN flag, if set, signals end-of-input. (What the code does with
  a buffer shorter than the header, whose fields it reads without a length check, is
  left out.)
\<close>

theorem receive_never_checks_the_checksum:
  assumes "SEGMENT_HDR K \<le> n"
  shows "ctcp_receive K state (segment\<lparr>seg_cksum := ck\<rparr>) n = ctcp_receive K state segment n \<and>
         sink (result_conn (ctcp_receive K state (segment\<lparr>seg_cksum := ck\<rparr>) n)) =
           sink (conn state)
             @ (if SEGMENT_HDR K < n
                then [Output (take (n - SEGMENT_HDR K) (seg_data segment))] else [])
             @ (if seg_flags segment AND TH_FIN K \<noteq> 0 then [End_Of_Input] else []) \<and>
         sent (result_conn (ctcp_receive K state (segment\<lparr>seg_cksum := ck\<rparr>) n)) =
           sent (conn state)
             @ (if SEGMENT_HDR K < n
                then [(ack_segment K segment (n - SEGMENT_HDR K), SEGMENT_HDR K)] else [])"
  by (simp add: model_defs)

text \<open>The theorem at a three-byte data segment with the checksum field 0xBEEF.\<close>

theorem receive_never_checks_the_checksum_witness:
  "SEGMENT_HDR K0 \<le> 21 \<and>
   ctcp_receive K0 (fresh 2) ((data_seg 1 [1, 2, 3])\<lparr>seg_cksum := 0xBEEF\<rparr>) 21 =
     ctcp_receive K0 (fresh 2) (data_seg 1 [1, 2, 3]) 21 \<and>
   sink (result_conn (ctcp_receive K0 (fresh 2) ((data_seg 1 [1, 2, 3])\<lparr>seg_cksum := 0xBEEF\<rparr>) 21))
     = sink (conn (fresh 2))
         @ (if SEGMENT_HDR K0 < 21
            then [Output (take (21 - SEGMENT_HDR K0) (seg_data (data_seg 1 [1, 2, 3])))] else [])
         @ (if seg_flags (data_seg 1 [1, 2, 3]) AND TH_FIN K0 \<noteq> 0 then [End_Of_Input] else []) \<and>
   sent (result_conn (ctcp_receive K0 (fresh 2) ((data_seg 1 [1, 2, 3])\<lparr>seg_cksum := 0xBEEF\<rparr>) 21))
     = sent (conn (fresh 2))
         @ (if SEGMENT_HDR K0 < 21
            then [(ack_segment K0 (data_seg 1 [1, 2, 3]) (21 - SEGMENT_HDR K0), SEGMENT_HDR K0)]
            else [])"
proof -
  have h: "SEGMENT_HDR K0 \<le> 21" by (simp add: K0_def)
  show ?thesis
    using h receive_never_checks_the_checksum
      [OF h, of "fresh 2" "0xBEEF" "data_seg 1 [1, 2, 3]"]
    by blast
qed

text \<open>
  The claim as stated fails: two buffers of 21 bytes that differ in the checksum field
  alone (0 and 0xBEEF) cannot both carry the checksum of the same bytes with that field
  zeroed, and the payload of both is delivered to the sink.
\<close>

theorem corrupt_segment_delivered_counterexample:
  "seg_cksum ((data_seg 1 [1, 2, 3])\<lparr>seg_cksum := 0xBEEF\<rparr>) \<noteq> seg_cksum (data_seg 1 [1, 2, 3]) \<and>
   (data_seg 1 [1, 2, 3])\<lparr>seg_cksum := 0\<rparr> = data_seg 1 [1, 2, 3] \<and>
   sink (result_conn (ctcp_receive K0 (fresh 2) (data_seg 1 [1, 2, 3]) 21)) = [Output [1, 2, 3]] \<and>
   sink (result_conn (ctcp_receive K0 (fresh 2) ((data_seg 1 [1, 2, 3])\<lparr>seg_cksum := 0xBEEF\<rparr>) 21))
     = [Output [1, 2, 3]]"
  by (simp add: model_defs input_defs)

section \<open>The ACK for inbound data (claim C8)\<close>

text \<open>
  Claim C8, as the code has it. For every inbound buffer longer than the header,
  \<^verbatim>\<open>ctcp_receive\<close> sends exactly one segment: it carries the ACK flag, its ackno is the
  seqno of the arriving segment plus the length of its payload, and its window field is 0
  (the field is never set).
\<close>

theorem data_segment_acked_with_its_own_end:
  assumes "SEGMENT_HDR K < n"
  shows "sent (result_conn (ctcp_receive K state segment n)) =
           sent (conn state) @ [(ack_segment K segment (n - SEGMENT_HDR K), SEGMENT_HDR K)] \<and>
         seg_flags (ack_segment K segment (n - SEGMENT_HDR K)) = TH_ACK K \<and>
         seg_ackno (ack_segment K segment (n - SEGMENT_HDR K)) =
           seg_seqno segment + of_nat (n - SEGMENT_HDR K) \<and>
         seg_window (ack_segment K segment (n - SEGMENT_HDR K)) = 0"
  using assms by (simp add: model_defs)

theorem data_segment_acked_with_its_own_end_witness:
  "SEGMENT_HDR K0 < 21 \<and>
   sent (result_conn (ctcp_receive K0 (fresh 2) (data_seg 1 [1, 2, 3]) 21)) =
     sent (conn (fresh 2)) @ [(ack_segment K0 (data_seg 1 [1, 2, 3]) (21 - SEGMENT_HDR K0), SEGMENT_HDR K0)] \<and>
   seg_flags (ack_segment K0 (data_seg 1 [1, 2, 3]) (21 - SEGMENT_HDR K0)) = TH_ACK K0 \<and>
   seg_ackno (ack_segment K0 (data_seg 1 [1, 2, 3]) (21 - SEGMENT_HDR K0)) =
     seg_seqno (data_seg 1 [1, 2, 3]) + of_nat (21 - SEGMENT_HDR K0) \<and>
   seg_window (ack_segment K0 (data_seg 1 [1, 2, 3]) (21 - SEGMENT_HDR K0)) = 0"
proof -
  have h: "SEGMENT_HDR K0 < 21" by (simp add: K0_def)
  show ?thesis
    using h data_segment_acked_with_its_own_end [OF h, of "fresh 2" "data_seg 1 [1, 2, 3]"]
    by simp
qed

text \<open>
  The claim as stated fails: a fresh receiver (\<open>recv_base\<close> 1, window 2880 bytes, nothing
  buffered) that gets the three bytes [101, 104) out of order answers with ackno 104, not
  1, and with window 0, not 2880; \<open>recv_base\<close> stays 1.
\<close>

theorem ack_of_out_of_order_segment_counterexample:
  "recv_base (fresh 2) = 1 \<and> recv_window (fresh 2) = 2880 \<and>
   ctcp_receive K0 (fresh 2) (data_seg 101 [1, 2, 3]) 21 =
     Live ((fresh 2)\<lparr>conn := conn0\<lparr>sent := [(ack_seg 104, 18)], sink := [Output [1, 2, 3]]\<rparr>\<rparr>) \<and>
   seg_ackno (ack_seg 104) = 104 \<and> seg_window (ack_seg 104) = 0"
  by (simp add: model_defs input_defs)

section \<open>Connection creation (claim C9)\<close>

text \<open>
  Claim C9, as the code has it. \<^verbatim>\<open>ctcp_init\<close> fails for a null connection only. For
  every configuration it creates and registers a state whose windows are the configured
  windows times \<^verbatim>\<open>MAX_SEG_DATA_SIZE\<close>; a zero window is stored as 0.
\<close>

theorem init_accepts_every_configuration:
  "ctcp_init K None cfg state_list = (None, state_list) \<and>
   (\<exists>state. ctcp_init K (Some c) cfg state_list = (Some state, state # state_list) \<and>
      conn state = c \<and> segments state = [] \<and>
      send_window state = of_nat (cfg_send_window cfg * MAX_SEG_DATA_SIZE K) \<and>
      recv_window state = of_nat (cfg_recv_window cfg * MAX_SEG_DATA_SIZE K))"
  by (simp add: ctcp_init_def Let_def)

text \<open>
  The claim as stated fails: the configuration with both windows zero is accepted, and the
  violation shows later, when \<^verbatim>\<open>ctcp_read\<close> on that connection never sends anything.
\<close>

theorem zero_window_accepted_counterexample:
  "ctcp_init K0 (Some conn0) \<lparr>cfg_send_window = 0, cfg_recv_window = 0, cfg_rt_timeout = 50\<rparr> []
     = (Some (fresh 0), [fresh 0]) \<and>
   send_window (fresh 0) = 0 \<and> recv_window (fresh 0) = 0 \<and>
   ctcp_read K0 0 (fresh 0) [Bytes [1, 2, 3], Eof] = fresh 0"
  by (simp add: ctcp_init_def Let_def input_defs)

section \<open>The FIN is not queued (claim C10)\<close>

lemma read_keeps_queue_property:
  assumes "\<And>st buf. buf \<noteq> [] \<Longrightarrow> Q (data_segment K st buf)"
  shows "list_all Q (segments state) \<Longrightarrow> list_all Q (segments (ctcp_read K now state ins))"
proof (induction ins arbitrary: state)
  case Nil
  then show ?case by simp
next
  case (Cons i ins)
  show ?case
  proof (cases i)
    case Eof
    then show ?thesis using Cons.prems by (simp add: send_fin_def)
  next
    case (Bytes bs)
    let ?buf = "take (MAX_SEG_DATA_SIZE K) bs"
    show ?thesis
    proof (cases "seqno state < send_base state + send_window state \<and> ?buf \<noteq> []")
      case False
      then have "ctcp_read K now state (i # ins) = state"
        unfolding Bytes by (subst ctcp_read.simps(3)) (simp del: ctcp_read.simps)
      then show ?thesis using Cons.prems by simp
    next
      case True
      have "Q (data_segment K state ?buf)"
        using True assms by blast
      then have "list_all Q (segments (send_data K now state ?buf))"
        using Cons.prems by (simp add: send_data_def)
      then have "list_all Q (segments (ctcp_read K now (send_data K now state ?buf) ins))"
        by (rule Cons.IH)
      moreover have "ctcp_read K now state (i # ins) = ctcp_read K now (send_data K now state ?buf) ins"
        unfolding Bytes using True by (subst ctcp_read.simps(3)) (simp del: ctcp_read.simps)
      ultimately show ?thesis by simp
    qed
  qed
qed

lemma data_segment_is_data:
  "buf \<noteq> [] \<Longrightarrow> seg_flags (data_segment K st buf) = 0 \<and> seg_data (data_segment K st buf) \<noteq> []"
  by (simp add: data_segment_def zero_segment_def)

lemma set_output_walk: "set (snd (snd (output_walk K c rb segs))) \<subseteq> set segs"
  by (induction segs arbitrary: c rb) auto

lemma output_keeps_queue_property:
  "list_all Q (segments state) \<Longrightarrow> list_all Q (segments (ctcp_output K state))"
proof -
  assume q: "list_all Q (segments state)"
  obtain c rb segs where w: "output_walk K (conn state) (recv_base state) (segments state) = (c, rb, segs)"
    by (cases "output_walk K (conn state) (recv_base state) (segments state)") auto
  have "set segs \<subseteq> set (segments state)"
    using set_output_walk [of K "conn state" "recv_base state" "segments state"] w by simp
  then have "list_all Q segs" using q by (auto simp: list_all_iff)
  then show ?thesis by (simp add: ctcp_output_def w)
qed

lemma receive_keeps_queue_property:
  assumes "list_all Q (segments state)" and "ctcp_receive K state segment n = Live state'"
  shows "list_all Q (segments state')"
proof -
  have "state' = receive_data K (receive_ack K state segment) segment n"
    using assms(2) by (auto simp: ctcp_receive_def receive_fin_def split: if_splits)
  then have "set (segments state') \<subseteq> set (segments state)"
    using receive_step_segments [of K state segment n] by simp
  then show ?thesis using assms(1) by (auto simp: list_all_iff)
qed

lemma timer_walk_segments:
  "timer_walk K ck i state segs = Live state' \<Longrightarrow> segments state' = segments state"
  by (induction segs arbitrary: state i) (auto simp: retransmit_def split: if_splits)

lemma timer_walk_sent:
  "\<exists>xs. sent (result_conn (timer_walk K ck i state segs)) = sent (conn state) @ xs \<and>
        set (map fst xs) \<subseteq> set segs"
proof (induction segs arbitrary: state i)
  case Nil
  show ?case by simp
next
  case (Cons s segs)
  show ?case
  proof (cases "rt_timeout state < fst (ck i) - last_sent_time state")
    case False
    then show ?thesis using Cons [of "Suc i" state] by auto
  next
    case due: True
    let ?st = "retransmit K (snd (ck i)) state s"
    have snt: "sent (conn ?st) = sent (conn state) @ [(s, unat (ntohs K (seg_len s)))]"
      by (simp add: retransmit_def conn_send_def)
    show ?thesis
    proof (cases "MAX_NUM_XMITS K \<le> retransmit_count ?st")
      case True
      then have "sent (result_conn (timer_walk K ck i state (s # segs))) =
          sent (conn state) @ [(s, unat (ntohs K (seg_len s)))]"
        using due snt by (simp add: ctcp_destroy_def conn_remove_def)
      then show ?thesis by simp
    next
      case False
      obtain xs where xs:
          "sent (result_conn (timer_walk K ck (Suc i) ?st segs)) = sent (conn ?st) @ xs"
          "set (map fst xs) \<subseteq> set segs"
        using Cons [of "Suc i" ?st] by blast
      have "sent (result_conn (timer_walk K ck i state (s # segs))) =
          sent (conn state) @ ((s, unat (ntohs K (seg_len s))) # xs)"
        using due False xs(1) snt by simp
      moreover have "set (map fst ((s, unat (ntohs K (seg_len s))) # xs)) \<subseteq> set (s # segs)"
        using xs(2) by auto
      ultimately show ?thesis by blast
    qed
  qed
qed

lemma step_keeps_queue_property:
  assumes "\<And>st buf. buf \<noteq> [] \<Longrightarrow> Q (data_segment K st buf)"
    and "list_all Q (segments state)" and "step K (Live state) ev = Live state'"
  shows "list_all Q (segments state')"
proof (cases ev)
  case (Ev_Read now ins)
  then have "state' = ctcp_read K now state ins" using assms(3) by simp
  then show ?thesis using read_keeps_queue_property [OF assms(1) assms(2)] by simp
next
  case (Ev_Receive segment n)
  then have "ctcp_receive K state segment n = Live state'" using assms(3) by simp
  then show ?thesis using assms(2) by (rule receive_keeps_queue_property [rotated])
next
  case Ev_Output
  then have "state' = ctcp_output K state" using assms(3) by simp
  then show ?thesis using output_keeps_queue_property [OF assms(2)] by simp
next
  case (Ev_Timer ck)
  then have "timer_walk K ck 0 state (segments state) = Live state'" using assms(3) by simp
  then have "segments state' = segments state" by (rule timer_walk_segments)
  then show ?thesis using assms(2) by simp
qed

lemma foldl_step_destroyed: "foldl (step K) (Destroyed c) evs = Destroyed c"
  by (induction evs) simp_all

lemma foldl_step_destroyed_in_walk:
  "foldl (step K) (Destroyed_In_Walk c nodes) evs = Destroyed_In_Walk c nodes"
  by (induction evs) simp_all

lemma run_keeps_queue_property:
  assumes "\<And>st buf. buf \<noteq> [] \<Longrightarrow> Q (data_segment K st buf)"
  shows "list_all Q (segments state) \<Longrightarrow> run K state evs = Live state' \<Longrightarrow>
           list_all Q (segments state')"
  unfolding run_def
proof (induction evs arbitrary: state)
  case Nil
  then show ?case by simp
next
  case (Cons ev evs)
  show ?case
  proof (cases "step K (Live state) ev")
    case (Live st1)
    have "list_all Q (segments st1)"
      using step_keeps_queue_property [OF assms Cons.prems(1) Live] .
    then show ?thesis using Cons.IH [of st1] Cons.prems(2) Live by simp
  next
    case (Destroyed c)
    then have "foldl (step K) (Live state) (ev # evs) = Destroyed c"
      by (simp add: foldl_step_destroyed)
    then show ?thesis using Cons.prems(2) by simp
  next
    case (Destroyed_In_Walk c nodes)
    then have "foldl (step K) (Live state) (ev # evs) = Destroyed_In_Walk c nodes"
      by (simp add: foldl_step_destroyed_in_walk)
    then show ?thesis using Cons.prems(2) by simp
  qed
qed

lemma init_state_segments: "init_state K c cfg = Some state \<Longrightarrow> segments state = []"
  by (auto simp: init_state_def ctcp_init_def Let_def)

text \<open>
  Claim C10. In every state a connection reaches from \<^verbatim>\<open>ctcp_init\<close> by calls of
  \<^verbatim>\<open>ctcp_read\<close>, \<^verbatim>\<open>ctcp_receive\<close>, \<^verbatim>\<open>ctcp_output\<close> and sweeps of \<^verbatim>\<open>ctcp_timer\<close>:
  when \<^verbatim>\<open>ctcp_read\<close> meets the end of input it leaves the segment list as it is (the FIN
  is sent, if the window is open, and not added); every segment in the list is a data
  segment, with payload and without the FIN flag; and every segment a sweep retransmits
  is without the FIN flag, so a FIN that was lost is never sent again.
\<close>

theorem fin_is_never_queued:
  assumes "init_state K c cfg = Some state0" and "run K state0 evs = Live state"
  shows "segments (ctcp_read K now state (Eof # ins)) = segments state \<and>
         sent (conn (ctcp_read K now state (Eof # ins))) =
           sent (conn state) @
             (if seqno state < send_base state + send_window state
              then [(fin_segment K state, SEGMENT_HDR K)] else []) \<and>
         list_all (\<lambda>s. seg_flags s AND TH_FIN K = 0 \<and> seg_data s \<noteq> []) (segments state) \<and>
         list_all (\<lambda>s. seg_flags s AND TH_FIN K = 0)
           (map fst (drop (length (sent (conn state)))
              (sent (result_conn (timer_walk K ck 0 state (segments state))))))"
proof -
  let ?Q = "\<lambda>s. seg_flags s = 0 \<and> seg_data s \<noteq> []"
  have "list_all ?Q (segments state0)"
    using assms(1) by (simp add: init_state_segments)
  then have q: "list_all ?Q (segments state)"
    using run_keeps_queue_property [of ?Q K state0 evs state] assms(2)
    by (simp add: data_segment_is_data)
  have a: "segments (ctcp_read K now state (Eof # ins)) = segments state"
    by (simp add: send_fin_def)
  have b: "sent (conn (ctcp_read K now state (Eof # ins))) =
           sent (conn state) @
             (if seqno state < send_base state + send_window state
              then [(fin_segment K state, SEGMENT_HDR K)] else [])"
    by (simp add: send_fin_def conn_send_def)
  have c: "list_all (\<lambda>s. seg_flags s AND TH_FIN K = 0 \<and> seg_data s \<noteq> []) (segments state)"
    using q by (auto simp: list_all_iff)
  obtain xs where xs:
    "sent (result_conn (timer_walk K ck 0 state (segments state))) = sent (conn state) @ xs"
    "set (map fst xs) \<subseteq> set (segments state)"
    using timer_walk_sent by blast
  have d: "list_all (\<lambda>s. seg_flags s AND TH_FIN K = 0)
           (map fst (drop (length (sent (conn state)))
              (sent (result_conn (timer_walk K ck 0 state (segments state))))))"
    unfolding xs(1) using xs(2) q by (auto simp: list_all_iff)
  show ?thesis using a b c d by blast
qed

text \<open>The theorem at the sender that read four bytes and then the end of input.\<close>

lemma half_closed_sender_eq:
  "half_closed_sender =
     (fresh 2)\<lparr>conn := conn0\<lparr>sent := [(data_seg 1 [1, 2, 3, 4], 22), (fin_seg 5, 18)]\<rparr>,
               segments := [data_seg 1 [1, 2, 3, 4]], seqno := 6\<rparr>"
  by (simp add: half_closed_sender_def model_defs input_defs)

theorem fin_is_never_queued_witness:
  "init_state K0 conn0 \<lparr>cfg_send_window = 2, cfg_recv_window = 2, cfg_rt_timeout = 50\<rparr>
     = Some (fresh 2) \<and>
   run K0 (fresh 2) [Ev_Read 0 [Bytes [1, 2, 3, 4], Eof]] = Live half_closed_sender \<and>
   sent (conn half_closed_sender) = [(data_seg 1 [1, 2, 3, 4], 22), (fin_seg 5, 18)] \<and>
   segments half_closed_sender = [data_seg 1 [1, 2, 3, 4]] \<and>
   segments (ctcp_read K0 10 half_closed_sender [Eof]) = segments half_closed_sender \<and>
   list_all (\<lambda>s. seg_flags s AND TH_FIN K0 = 0 \<and> seg_data s \<noteq> []) (segments half_closed_sender) \<and>
   list_all (\<lambda>s. seg_flags s AND TH_FIN K0 = 0)
     (map fst (drop (length (sent (conn half_closed_sender)))
        (sent (result_conn (timer_walk K0 (at_time 100) 0 half_closed_sender (segments half_closed_sender))))))"
proof -
  have h1: "init_state K0 conn0 \<lparr>cfg_send_window = 2, cfg_recv_window = 2, cfg_rt_timeout = 50\<rparr>
     = Some (fresh 2)"
    by (rule init_state_fresh)
  have h2: "run K0 (fresh 2) [Ev_Read 0 [Bytes [1, 2, 3, 4], Eof]] = Live half_closed_sender"
    by (simp add: run_def half_closed_sender_def)
  show ?thesis
    using h1 h2 fin_is_never_queued [OF h1 h2, of 10 "[]" "at_time 100"]
    by (simp add: half_closed_sender_eq)
qed

end
